theory Spec2Isabelle
  imports Main
begin

text \<open>
  The Streamlit page \<open>src/streamlit_app/app.py\<close> of garmin-grafana: it asks for the
  Garmin Connect credentials, logs in through the \<open>garminconnect\<close> client, asks for an
  MFA code when the login needs one, and writes the tokens to the directory
  \<open>TOKEN_DIR\<close>, where the collector finds them. Streamlit runs the script from top to
  bottom once for every action of the user; what lasts from one run to the next is
  \<open>st.session_state\<close> and the file system. The theory follows the script section by
  section: each section is a function from the page so far (session state, token
  directory, what was rendered, which outside calls were made) to the page after it.
\<close>

section \<open>Configuration (app.py, lines 17-19)\<close>

text \<open>
  The process environment is a dictionary from variable names to values.
  \<open>os.getenv(key, default)\<close> returns the default when the key is not set.
\<close>

type_synonym environ = "string \<rightharpoonup> string"

definition getenv :: "environ \<Rightarrow> string \<Rightarrow> string \<Rightarrow> string" where
  "getenv env key dflt = (case env key of None \<Rightarrow> dflt | Some v \<Rightarrow> v)"

text \<open>
  \<open>str.lower()\<close>. A \<open>string\<close> is a list of bytes; the letters \<open>A\<close> to \<open>Z\<close>
  (codes 65 to 90) move to \<open>a\<close> to \<open>z\<close>, every other byte stays. No character
  outside ASCII lowercases to one of the letters of the four accepted words, so on the
  membership test of line 19 this agrees with Python's Unicode lowercasing.
\<close>

definition lower_char :: "char \<Rightarrow> char" where
  "lower_char c =
     (let n = (of_char c :: nat) in if 65 \<le> n \<and> n \<le> 90 then char_of (n + 32) else c)"

definition lower :: "string \<Rightarrow> string" where
  "lower s = map lower_char s"

definition GARMINCONNECT_IS_CN :: "environ \<Rightarrow> bool" where
  "GARMINCONNECT_IS_CN env =
     (lower (getenv env ''GARMINCONNECT_IS_CN'' ''False'') \<in> set [''true'', ''t'', ''yes'', ''1''])"

section \<open>The token directory (app.py, lines 22 and 90)\<close>

text \<open>
  What the file system holds at the path \<open>TOKEN_DIR\<close>: nothing, a file that is not a
  directory, or a directory with its entries in the order \<open>iterdir\<close> lists them.
\<close>

datatype node = Missing | File | Dir "string list"

text \<open>
  Exceptions carry the text \<open>str(e)\<close>. The handlers of the script tell
  \<open>GarminConnectAuthenticationError\<close> from every other \<open>Exception\<close>.
\<close>

datatype exn = GarminConnectAuthenticationError string | OtherError string

fun message :: "exn \<Rightarrow> string" where
  "message (GarminConnectAuthenticationError m) = m"
| "message (OtherError m) = m"

text \<open>\<open>Path(TOKEN_DIR).mkdir(parents=True, exist_ok=True)\<close>\<close>

fun mkdir :: "node \<Rightarrow> exn + node" where
  "mkdir Missing = Inr (Dir [])"
| "mkdir (Dir es) = Inr (Dir es)"
| "mkdir File = Inl (OtherError ''FileExistsError'')"

text \<open>\<open>Path(TOKEN_DIR).exists()\<close>\<close>

fun exists_path :: "node \<Rightarrow> bool" where
  "exists_path Missing = False"
| "exists_path File = True"
| "exists_path (Dir es) = True"

text \<open>\<open>Path(TOKEN_DIR).iterdir()\<close>, consumed at once\<close>

fun iterdir :: "node \<Rightarrow> exn + string list" where
  "iterdir (Dir es) = Inr es"
| "iterdir File = Inl (OtherError ''NotADirectoryError'')"
| "iterdir Missing = Inl (OtherError ''FileNotFoundError'')"

text \<open>
  Line 90: \<open>Path(TOKEN_DIR).exists() and any(Path(TOKEN_DIR).iterdir())\<close>.
  \<open>and\<close> does not evaluate its right side when the left one is false; every
  \<open>Path\<close> object is truthy, so \<open>any\<close> is true exactly on a non-empty listing.
\<close>

definition token_files_exist :: "node \<Rightarrow> exn + bool" where
  "token_files_exist d =
     (if exists_path d then
        (case iterdir d of Inl e \<Rightarrow> Inl e | Inr es \<Rightarrow> Inr (es \<noteq> []))
      else Inr False)"

section \<open>Session state (app.py, lines 110-117)\<close>

text \<open>
  \<open>st.session_state\<close> keeps four keys between the runs of the script. In the stored
  form a field is \<open>None\<close> while its key is not in \<open>st.session_state\<close>. The values
  of \<open>garmin_obj\<close> and \<open>mfa_data\<close> are themselves \<open>None\<close> (Python's \<open>None\<close>)
  or an object.
\<close>

record ('g, 'c) session_store =
  key_authenticated :: "bool option"
  key_needs_mfa :: "bool option"
  key_garmin_obj :: "'g option option"
  key_mfa_data :: "'c option option"

record ('g, 'c) session_state =
  authenticated :: bool
  needs_mfa :: bool
  garmin_obj :: "'g option"
  mfa_data :: "'c option"

definition new_session :: "('g, 'c) session_store" where
  "new_session =
     \<lparr>key_authenticated = None, key_needs_mfa = None, key_garmin_obj = None, key_mfa_data = None\<rparr>"

text \<open>Lines 110-117: every key that is not there yet gets its initial value.\<close>

definition init_session_state :: "('g, 'c) session_store \<Rightarrow> ('g, 'c) session_state" where
  "init_session_state st =
     \<lparr>authenticated = (case key_authenticated st of None \<Rightarrow> False | Some b \<Rightarrow> b),
      needs_mfa = (case key_needs_mfa st of None \<Rightarrow> False | Some b \<Rightarrow> b),
      garmin_obj = (case key_garmin_obj st of None \<Rightarrow> None | Some g \<Rightarrow> g),
      mfa_data = (case key_mfa_data st of None \<Rightarrow> None | Some c \<Rightarrow> c)\<rparr>"

text \<open>After line 117 all four keys are set; this is what the next run finds.\<close>

definition stored :: "('g, 'c) session_state \<Rightarrow> ('g, 'c) session_store" where
  "stored s =
     \<lparr>key_authenticated = Some (authenticated s), key_needs_mfa = Some (needs_mfa s),
      key_garmin_obj = Some (garmin_obj s), key_mfa_data = Some (mfa_data s)\<rparr>"

section \<open>What a run of the script receives and produces\<close>

text \<open>
  One action of the user starts one run of the script. In that run the button the user
  pressed returns \<open>True\<close> and every other button returns \<open>False\<close>; the text inputs
  of a form are read by the script only under its submit button, where they hold what
  was typed. A run that \<open>st.rerun()\<close> starts has no button pressed.
\<close>

datatype event =
    PageLoad
  | ClickReauth
  | SubmitLogin string string
  | SubmitMfa string

text \<open>\<open>st.button("Re-authenticate (Clear existing tokens)")\<close>, line 96\<close>

fun reauth_button :: "event \<Rightarrow> bool" where
  "reauth_button ClickReauth = True"
| "reauth_button _ = False"

text \<open>\<open>submit_button\<close>, \<open>email\<close> and \<open>password\<close> of the login form, lines 123-129\<close>

fun submit_button :: "event \<Rightarrow> bool" where
  "submit_button (SubmitLogin e pw) = True"
| "submit_button _ = False"

fun email :: "event \<Rightarrow> string" where
  "email (SubmitLogin e pw) = e"
| "email _ = []"

fun password :: "event \<Rightarrow> string" where
  "password (SubmitLogin e pw) = pw"
| "password _ = []"

text \<open>\<open>submit_mfa\<close> and \<open>mfa_code\<close> of the MFA form, lines 170-172\<close>

fun submit_mfa :: "event \<Rightarrow> bool" where
  "submit_mfa (SubmitMfa c) = True"
| "submit_mfa _ = False"

fun mfa_code :: "event \<Rightarrow> string" where
  "mfa_code (SubmitMfa c) = c"
| "mfa_code _ = []"

text \<open>
  The first value \<open>garmin.login()\<close> returns is compared with the string
  \<open>"needs_mfa"\<close>: it is a string or some other object.
\<close>

datatype 't result1 = PyStr string | PyObj 't

text \<open>
  The code outside the script, as the script sees it: the constructor \<open>Garmin(...)\<close>,
  \<open>garmin.login()\<close>, \<open>garmin.resume_login(mfa_data, mfa_code)\<close>,
  \<open>garmin.garth.dump(TOKEN_DIR)\<close> (which may change the directory whether it raises
  or not) and \<open>file.unlink()\<close> (which raises for the entries it cannot delete).
\<close>

record ('g, 'c, 't) external =
  Garmin :: "string \<Rightarrow> string \<Rightarrow> bool \<Rightarrow> exn + 'g"
  login :: "'g \<Rightarrow> exn + ('t result1 \<times> 'c option)"
  resume_login :: "'g \<Rightarrow> 'c option \<Rightarrow> string \<Rightarrow> exn option"
  dump :: "'g \<Rightarrow> node \<Rightarrow> exn option \<times> node"
  unlink :: "string \<Rightarrow> exn option"

text \<open>The calls a run makes to that code, in order.\<close>

datatype ('g, 'c) call =
    CallGarmin string string bool
  | CallLogin 'g
  | CallResumeLogin 'g "'c option" string
  | CallDump 'g
  | CallUnlink string

text \<open>
  The elements a run puts on the page, in order (the emoji of the source's texts are
  left out).
\<close>

datatype ui =
    TokensFoundBox
  | ReauthButton
  | PleaseLogInBox
  | LoginForm
  | ChinaRegionInfo
  | MfaRequiredBox
  | MfaForm
  | StError string
  | ErrorBox string
  | StSuccess string
  | SuccessBox

record ('s, 'g, 'c) page =
  session :: 's
  token_dir :: node
  shown :: "ui list"
  calls :: "('g, 'c) call list"

text \<open>
  A run ends by reaching the end of the script, by \<open>st.rerun()\<close> (which stops the run
  and starts the script again from the top) or by an exception nothing catches.
  \<open>st.rerun()\<close> stops the run by raising an exception of Streamlit that is not an
  \<open>Exception\<close>, so the \<open>except Exception\<close> clauses of the script let it through.
\<close>

datatype 'p outcome = Finished 'p | Rerun 'p | Crashed exn 'p

fun page_of :: "'p outcome \<Rightarrow> 'p" where
  "page_of (Finished p) = p"
| "page_of (Rerun p) = p"
| "page_of (Crashed e p) = p"

text \<open>The next statements of the script run only when nothing stopped the run.\<close>

fun and_then :: "'p outcome \<Rightarrow> ('p \<Rightarrow> 'p outcome) \<Rightarrow> 'p outcome" where
  "and_then (Finished p) f = f p"
| "and_then (Rerun p) f = Rerun p"
| "and_then (Crashed e p) f = Crashed e p"

definition render :: "ui list \<Rightarrow> ('s, 'g, 'c) page \<Rightarrow> ('s, 'g, 'c) page" where
  "render us p = p\<lparr>shown := shown p @ us\<rparr>"

definition called :: "('g, 'c) call \<Rightarrow> ('s, 'g, 'c) page \<Rightarrow> ('s, 'g, 'c) page" where
  "called c p = p\<lparr>calls := calls p @ [c]\<rparr>"

section \<open>Clearing the tokens (app.py, lines 92-105)\<close>

text \<open>
  \<open>file.unlink()\<close> on the directory as it is now: the entry goes away unless the call
  raises.
\<close>

definition unlink_file :: "('g, 'c, 't) external \<Rightarrow> string \<Rightarrow> node \<Rightarrow> exn + node" where
  "unlink_file ext f d =
     (case unlink ext f of
        Some e \<Rightarrow> Inl e
      | None \<Rightarrow>
          (case d of
             Dir es \<Rightarrow> if f \<in> set es then Inr (Dir (remove1 f es))
                       else Inl (OtherError ''FileNotFoundError'')
           | _ \<Rightarrow> Inl (OtherError ''FileNotFoundError'')))"

text \<open>
  Lines 98-99, the loop over the listing: the first \<open>unlink\<close> that raises ends it.
\<close>

fun unlink_all ::
  "('g, 'c, 't) external \<Rightarrow> string list \<Rightarrow> ('s, 'g, 'c) page \<Rightarrow> exn option \<times> ('s, 'g, 'c) page"
where
  "unlink_all ext [] p = (None, p)"
| "unlink_all ext (f # fs) p =
     (case unlink_file ext f (token_dir p) of
        Inl e \<Rightarrow> (Some e, called (CallUnlink f) p)
      | Inr d \<Rightarrow> unlink_all ext fs ((called (CallUnlink f) p)\<lparr>token_dir := d\<rparr>))"

text \<open>Lines 97-103, the handler of the button.\<close>

definition clear_tokens ::
  "('g, 'c, 't) external \<Rightarrow> ('s, 'g, 'c) page \<Rightarrow> ('s, 'g, 'c) page outcome"
where
  "clear_tokens ext p =
     (case iterdir (token_dir p) of
        Inl e \<Rightarrow> Finished (render [StError (''Error clearing tokens: '' @ message e)] p)
      | Inr fs \<Rightarrow>
          (case unlink_all ext fs p of
             (Some e, p') \<Rightarrow>
               Finished (render [StError (''Error clearing tokens: '' @ message e)] p')
           | (None, p') \<Rightarrow>
               Rerun (render [StSuccess ''Tokens cleared. Please log in again.''] p')))"

text \<open>Lines 92-105.\<close>

definition token_section ::
  "('g, 'c, 't) external \<Rightarrow> event \<Rightarrow> bool \<Rightarrow> ('s, 'g, 'c) page \<Rightarrow> ('s, 'g, 'c) page outcome"
where
  "token_section ext ev tfe p =
     (if tfe then
        (let p1 = render [TokensFoundBox, ReauthButton] p in
         if reauth_button ev then clear_tokens ext p1 else Finished p1)
      else Finished (render [PleaseLogInBox] p))"

section \<open>The login form (app.py, lines 120-162)\<close>

text \<open>
  The body of the \<open>try\<close> of lines 136-155. \<open>Inr\<close>: it reached \<open>st.rerun()\<close>;
  \<open>Inl\<close>: it raised, with the page as it was at that point.
\<close>

definition login_attempt ::
  "('g, 'c, 't) external \<Rightarrow> event \<Rightarrow> bool \<Rightarrow> (('g, 'c) session_state, 'g, 'c) page
     \<Rightarrow> exn \<times> (('g, 'c) session_state, 'g, 'c) page + (('g, 'c) session_state, 'g, 'c) page"
where
  "login_attempt ext ev is_cn p =
     (let p1 = called (CallGarmin (email ev) (password ev) is_cn) p in
      case Garmin ext (email ev) (password ev) is_cn of
        Inl e \<Rightarrow> Inl (e, p1)
      | Inr garmin \<Rightarrow>
          (let p2 = called (CallLogin garmin) p1 in
           case login ext garmin of
             Inl e \<Rightarrow> Inl (e, p2)
           | Inr (result1, result2) \<Rightarrow>
               if result1 = PyStr ''needs_mfa'' then
                 Inr (p2\<lparr>session := (session p2)
                        \<lparr>needs_mfa := True, garmin_obj := Some garmin, mfa_data := result2\<rparr>\<rparr>)
               else
                 (let p3 = called (CallDump garmin) p2 in
                  case dump ext garmin (token_dir p3) of
                    (Some e, d) \<Rightarrow> Inl (e, p3\<lparr>token_dir := d\<rparr>)
                  | (None, d) \<Rightarrow>
                      Inr (p3\<lparr>token_dir := d,
                              session := (session p3)\<lparr>authenticated := True\<rparr>\<rparr>))))"

text \<open>Lines 157-162, the two \<open>except\<close> clauses.\<close>

fun login_error_box :: "exn \<Rightarrow> ui" where
  "login_error_box (GarminConnectAuthenticationError m) = ErrorBox (''Authentication failed: '' @ m)"
| "login_error_box (OtherError m) = ErrorBox (''Error: '' @ m)"

definition login_section ::
  "('g, 'c, 't) external \<Rightarrow> event \<Rightarrow> bool \<Rightarrow> bool \<Rightarrow> (('g, 'c) session_state, 'g, 'c) page
     \<Rightarrow> (('g, 'c) session_state, 'g, 'c) page outcome"
where
  "login_section ext ev is_cn tfe p =
     (if \<not> authenticated (session p) \<and> \<not> tfe then
        (let p1 = render (LoginForm # (if is_cn then [ChinaRegionInfo] else [])) p in
         if submit_button ev then
           if email ev = [] \<or> password ev = [] then
             Finished (render [StError ''Please enter both email and password.''] p1)
           else
             (case login_attempt ext ev is_cn p1 of
                Inl (e, p2) \<Rightarrow> Finished (render [login_error_box e] p2)
              | Inr p2 \<Rightarrow> Rerun p2)
         else Finished p1)
      else Finished p)"

section \<open>The MFA form (app.py, lines 165-194)\<close>

text \<open>
  The body of the \<open>try\<close> of lines 179-187. \<open>st.session_state.garmin_obj\<close> may be
  \<open>None\<close>, and then the method call raises \<open>AttributeError\<close>.
\<close>

definition mfa_attempt ::
  "('g, 'c, 't) external \<Rightarrow> event \<Rightarrow> (('g, 'c) session_state, 'g, 'c) page
     \<Rightarrow> exn \<times> (('g, 'c) session_state, 'g, 'c) page + (('g, 'c) session_state, 'g, 'c) page"
where
  "mfa_attempt ext ev p =
     (case garmin_obj (session p) of
        None \<Rightarrow> Inl (OtherError ''AttributeError'', p)
      | Some garmin \<Rightarrow>
          (let p1 = called (CallResumeLogin garmin (mfa_data (session p)) (mfa_code ev)) p in
           case resume_login ext garmin (mfa_data (session p)) (mfa_code ev) of
             Some e \<Rightarrow> Inl (e, p1)
           | None \<Rightarrow>
               (let p2 = called (CallDump garmin) p1 in
                case dump ext garmin (token_dir p2) of
                  (Some e, d) \<Rightarrow> Inl (e, p2\<lparr>token_dir := d\<rparr>)
                | (None, d) \<Rightarrow>
                    Inr (p2\<lparr>token_dir := d,
                            session := (session p2)
                              \<lparr>authenticated := True, needs_mfa := False\<rparr>\<rparr>))))"

text \<open>Lines 189-194.\<close>

fun mfa_error_box :: "exn \<Rightarrow> ui" where
  "mfa_error_box (GarminConnectAuthenticationError m) = ErrorBox (''MFA verification failed: '' @ m)"
| "mfa_error_box (OtherError m) = ErrorBox (''Error: '' @ m)"

definition mfa_section ::
  "('g, 'c, 't) external \<Rightarrow> event \<Rightarrow> (('g, 'c) session_state, 'g, 'c) page
     \<Rightarrow> (('g, 'c) session_state, 'g, 'c) page outcome"
where
  "mfa_section ext ev p =
     (if needs_mfa (session p) \<and> \<not> authenticated (session p) then
        (let p1 = render [MfaRequiredBox, MfaForm] p in
         if submit_mfa ev then
           if mfa_code ev = [] then
             Finished (render [StError ''Please enter the MFA code.''] p1)
           else
             (case mfa_attempt ext ev p1 of
                Inl (e, p2) \<Rightarrow> Finished (render [mfa_error_box e] p2)
              | Inr p2 \<Rightarrow> Rerun p2)
         else Finished p1)
      else Finished p)"

section \<open>The success message (app.py, lines 197-209)\<close>

definition success_section ::
  "bool \<Rightarrow> (('g, 'c) session_state, 'g, 'c) page \<Rightarrow> (('g, 'c) session_state, 'g, 'c) page"
where
  "success_section tfe p =
     (if authenticated (session p) \<or> tfe then render [SuccessBox] p else p)"

section \<open>The script (app.py, top to bottom)\<close>

definition with_session :: "'a \<Rightarrow> ('s, 'g, 'c) page \<Rightarrow> ('a, 'g, 'c) page" where
  "with_session s p = \<lparr>session = s, token_dir = token_dir p, shown = shown p, calls = calls p\<rparr>"

text \<open>Lines 110-209, once the four keys are set.\<close>

definition forms ::
  "('g, 'c, 't) external \<Rightarrow> event \<Rightarrow> bool \<Rightarrow> bool \<Rightarrow> (('g, 'c) session_state, 'g, 'c) page
     \<Rightarrow> (('g, 'c) session_state, 'g, 'c) page outcome"
where
  "forms ext ev is_cn tfe p =
     and_then (login_section ext ev is_cn tfe p)
       (\<lambda>p1. and_then (mfa_section ext ev p1)
          (\<lambda>p2. Finished (success_section tfe p2)))"

text \<open>
  One run. Line 22 creates the directory, line 90 computes \<open>token_files_exist\<close> once,
  and lines 120 and 197 read that value again.
\<close>

definition script ::
  "('g, 'c, 't) external \<Rightarrow> environ \<Rightarrow> event \<Rightarrow> (('g, 'c) session_store, 'g, 'c) page
     \<Rightarrow> (('g, 'c) session_store, 'g, 'c) page outcome"
where
  "script ext env ev p0 =
     (case mkdir (token_dir p0) of
        Inl e \<Rightarrow> Crashed e p0
      | Inr d \<Rightarrow>
          (let p = p0\<lparr>token_dir := d\<rparr> in
           case token_files_exist (token_dir p) of
             Inl e \<Rightarrow> Crashed e p
           | Inr tfe \<Rightarrow>
               (case token_section ext ev tfe p of
                  Finished p1 \<Rightarrow>
                    map_outcome (\<lambda>q. with_session (stored (session q)) q)
                      (forms ext ev (GARMINCONNECT_IS_CN env) tfe
                         (with_session (init_session_state (session p1)) p1))
                | Rerun p1 \<Rightarrow> Rerun p1
                | Crashed e p1 \<Rightarrow> Crashed e p1)))"

text \<open>
  What the user sees after acting on the page: the run the action starts and, when that
  run ends in \<open>st.rerun()\<close>, the run that follows it on an empty page, in which no
  widget is triggered.
\<close>

definition interact ::
  "('g, 'c, 't) external \<Rightarrow> environ \<Rightarrow> event \<Rightarrow> (('g, 'c) session_store, 'g, 'c) page
     \<Rightarrow> (('g, 'c) session_store, 'g, 'c) page outcome"
where
  "interact ext env ev p =
     (case script ext env ev (p\<lparr>shown := []\<rparr>) of
        Rerun p1 \<Rightarrow> script ext env PageLoad (p1\<lparr>shown := []\<rparr>)
      | r \<Rightarrow> r)"

section \<open>Example sessions\<close>

text \<open>
  Concrete inputs for the properties below. The provider hands out client \<open>1\<close>; its
  login call, its resume call and its dump behave as given, and \<open>unlink\<close> raises on the
  entries listed as locked.
\<close>

definition provider ::
  "exn + (unit result1 \<times> nat option) \<Rightarrow> exn option \<Rightarrow> exn option \<times> node \<Rightarrow> string list
     \<Rightarrow> (nat, nat, unit) external"
where
  "provider l r w locked =
     \<lparr>Garmin = (\<lambda>e pw cn. Inr 1),
      login = (\<lambda>g. l),
      resume_login = (\<lambda>g c code. r),
      dump = (\<lambda>g d. w),
      unlink = (\<lambda>f. if f \<in> set locked then Some (OtherError ''Permission denied'') else None)\<rparr>"

definition token_files :: "string list" where
  "token_files = [''oauth1_token.json'', ''oauth2_token.json'']"

text \<open>A new session on an empty directory, before and after lines 110-117.\<close>

definition first_visit :: "((nat, nat) session_store, nat, nat) page" where
  "first_visit = \<lparr>session = new_session, token_dir = Dir [], shown = [], calls = []\<rparr>"

definition login_page :: "((nat, nat) session_state, nat, nat) page" where
  "login_page =
     \<lparr>session = init_session_state new_session, token_dir = Dir [], shown = [], calls = []\<rparr>"

text \<open>The session after a login that answered \<open>needs_mfa\<close> with context \<open>5\<close>.\<close>

definition mfa_page :: "((nat, nat) session_state, nat, nat) page" where
  "mfa_page =
     \<lparr>session = \<lparr>authenticated = False, needs_mfa = True, garmin_obj = Some 1, mfa_data = Some 5\<rparr>,
      token_dir = Dir [], shown = [], calls = []\<rparr>"

text \<open>A page over a directory that holds the two token files.\<close>

definition tokens_page :: "((nat, nat) session_store, nat, nat) page" where
  "tokens_page = \<lparr>session = new_session, token_dir = Dir token_files, shown = [], calls = []\<rparr>"

section \<open>Properties\<close>

subsection \<open>Pages\<close>

lemma session_render [simp]: "session (render us p) = session p"
  and token_dir_render [simp]: "token_dir (render us p) = token_dir p"
  and calls_render [simp]: "calls (render us p) = calls p"
  and shown_render [simp]: "shown (render us p) = shown p @ us"
  by (simp_all add: render_def)

lemma session_called [simp]: "session (called c p) = session p"
  and token_dir_called [simp]: "token_dir (called c p) = token_dir p"
  and calls_called [simp]: "calls (called c p) = calls p @ [c]"
  and shown_called [simp]: "shown (called c p) = shown p"
  by (simp_all add: called_def)

subsection \<open>Evaluating the example sessions\<close>

lemma GARMINCONNECT_IS_CN_unset: "GARMINCONNECT_IS_CN Map.empty = False"
  by code_simp

lemmas run_defs =
  interact_def script_def token_section_def clear_tokens_def forms_def login_section_def
  login_attempt_def mfa_section_def mfa_attempt_def success_section_def render_def called_def
  with_session_def stored_def init_session_state_def new_session_def token_files_exist_def
  unlink_file_def provider_def token_files_def first_visit_def login_page_def mfa_page_def
  tokens_page_def GARMINCONNECT_IS_CN_unset Let_def

subsection \<open>The region flag\<close>

lemma of_char_lower_char:
  "of_char (lower_char c) = (let n = (of_char c :: nat) in if 65 \<le> n \<and> n \<le> 90 then n + 32 else n)"
  by (simp add: lower_char_def Let_def)

lemma lower_char_fixed:
  "\<not> (65 \<le> (of_char d :: nat) \<and> (of_char d :: nat) \<le> 90) \<Longrightarrow> lower_char d = d"
  by (auto simp add: lower_char_def Let_def)

lemma lower_char_idem: "lower_char (lower_char c) = lower_char c"
proof (cases "65 \<le> (of_char c :: nat) \<and> (of_char c :: nat) \<le> 90")
  case True
  then have "(of_char (lower_char c) :: nat) = of_char c + 32"
    by (simp add: of_char_lower_char)
  with True have "\<not> (65 \<le> (of_char (lower_char c) :: nat) \<and> (of_char (lower_char c) :: nat) \<le> 90)"
    by simp
  then show ?thesis
    by (rule lower_char_fixed)
next
  case False
  then show ?thesis by (simp add: lower_char_fixed)
qed

lemma lower_idem: "lower (lower s) = lower s"
  by (simp add: lower_def lower_char_idem)

text \<open>
  C8. The region flag is true exactly when the value of the environment variable,
  lowercased, is one of \<open>true\<close>, \<open>t\<close>, \<open>yes\<close>, \<open>1\<close>, and it is false when
  the variable is not set. Lowercasing the value first changes nothing, so the accepted
  forms do not depend on case; \<open>TRUE\<close>, \<open>True\<close>, \<open>T\<close>, \<open>YES\<close>, \<open>yEs\<close> are
  among them.
\<close>

theorem region_flag_parsed:
  "GARMINCONNECT_IS_CN env =
     (case env ''GARMINCONNECT_IS_CN'' of
        None \<Rightarrow> False
      | Some v \<Rightarrow> lower v = ''true'' \<or> lower v = ''t'' \<or> lower v = ''yes'' \<or> lower v = ''1'')
   \<and> GARMINCONNECT_IS_CN (env(''GARMINCONNECT_IS_CN'' \<mapsto> lower v))
       = GARMINCONNECT_IS_CN (env(''GARMINCONNECT_IS_CN'' \<mapsto> v))
   \<and> lower ''TRUE'' = ''true'' \<and> lower ''True'' = ''true'' \<and> lower ''T'' = ''t''
   \<and> lower ''YES'' = ''yes'' \<and> lower ''yEs'' = ''yes'' \<and> lower ''1'' = ''1''"
proof -
  have a: "lower ''False'' = ''false''" by code_simp
  have b: "lower ''TRUE'' = ''true''" "lower ''True'' = ''true''" "lower ''T'' = ''t''"
    "lower ''YES'' = ''yes''" "lower ''yEs'' = ''yes''" "lower ''1'' = ''1''"
    by code_simp+
  show ?thesis
    by (simp add: GARMINCONNECT_IS_CN_def getenv_def a b lower_idem split: option.split)
qed

subsection \<open>Runs that only display\<close>

lemma token_section_display:
  "\<not> reauth_button ev \<Longrightarrow>
     token_section ext ev tfe p =
       Finished (render (if tfe then [TokensFoundBox, ReauthButton] else [PleaseLogInBox]) p)"
  by (simp add: token_section_def)

lemma login_section_display:
  "\<not> submit_button ev \<Longrightarrow>
     login_section ext ev is_cn tfe p =
       Finished (render (if \<not> authenticated (session p) \<and> \<not> tfe
                         then LoginForm # (if is_cn then [ChinaRegionInfo] else []) else []) p)"
  by (simp add: login_section_def render_def)

lemma mfa_section_display:
  "\<not> submit_mfa ev \<Longrightarrow>
     mfa_section ext ev p =
       Finished (render (if needs_mfa (session p) \<and> \<not> authenticated (session p)
                         then [MfaRequiredBox, MfaForm] else []) p)"
  by (simp add: mfa_section_def render_def)

lemma token_dir_success_section [simp]: "token_dir (success_section tfe p) = token_dir p"
  and session_success_section [simp]: "session (success_section tfe p) = session p"
  and calls_success_section [simp]: "calls (success_section tfe p) = calls p"
  by (simp_all add: success_section_def)

lemma token_dir_with_session [simp]: "token_dir (with_session s p) = token_dir p"
  and session_with_session [simp]: "session (with_session s p) = s"
  and calls_with_session [simp]: "calls (with_session s p) = calls p"
  and shown_with_session [simp]: "shown (with_session s p) = shown p"
  by (simp_all add: with_session_def)

lemma init_stored [simp]: "init_session_state (stored s) = s"
  by (simp add: init_session_state_def stored_def)

lemma forms_PageLoad:
  "forms ext PageLoad is_cn tfe p =
     Finished (success_section tfe
       (render (if needs_mfa (session p) \<and> \<not> authenticated (session p)
                then [MfaRequiredBox, MfaForm] else [])
          (render (if \<not> authenticated (session p) \<and> \<not> tfe
                   then LoginForm # (if is_cn then [ChinaRegionInfo] else []) else []) p)))"
  by (simp add: forms_def login_section_display mfa_section_display)

lemma script_PageLoad_Dir:
  "script ext env PageLoad (p\<lparr>token_dir := Dir es\<rparr>) =
     Finished (with_session (stored (init_session_state (session p)))
       (page_of (forms ext PageLoad (GARMINCONNECT_IS_CN env) (es \<noteq> [])
          (with_session (init_session_state (session p))
             (render (if es \<noteq> [] then [TokensFoundBox, ReauthButton] else [PleaseLogInBox])
                (p\<lparr>token_dir := Dir es\<rparr>))))))"
  by (simp add: script_def token_files_exist_def token_section_display forms_PageLoad Let_def)

text \<open>
  C3. The token presence check is false for a missing and for an empty directory and true
  for a directory with at least one entry. It only reads: a run of the script in which
  the user triggers nothing leaves an existing directory with the entries it had.
\<close>

theorem token_presence_check:
  "token_files_exist Missing = Inr False
   \<and> token_files_exist (Dir []) = Inr False
   \<and> token_files_exist (Dir (e # es)) = Inr True
   \<and> token_files_exist (Dir fs) = Inr (fs \<noteq> [])
   \<and> token_dir (page_of (script ext env PageLoad (p\<lparr>token_dir := Dir fs\<rparr>))) = Dir fs"
  by (simp add: token_files_exist_def script_PageLoad_Dir forms_PageLoad)

subsection \<open>The login form\<close>

lemma page_of_map_outcome: "page_of (map_outcome f r) = f (page_of r)"
  by (cases r) simp_all

lemma forms_invalid_login:
  "e = [] \<or> pw = [] \<Longrightarrow>
     calls (page_of (forms ext (SubmitLogin e pw) is_cn tfe p)) = calls p
     \<and> session (page_of (forms ext (SubmitLogin e pw) is_cn tfe p)) = session p"
  by (auto simp add: forms_def login_section_def mfa_section_display Let_def)

lemma script_invalid_login:
  "e = [] \<or> pw = [] \<Longrightarrow> calls (page_of (script ext env (SubmitLogin e pw) q)) = calls q"
  by (cases "token_dir q")
    (simp_all add: script_def token_files_exist_def token_section_display page_of_map_outcome
      forms_invalid_login Let_def)

text \<open>
  C4. When the login form is submitted with an empty email or an empty password, the run
  shows the validation error inside the form and goes on; it makes no call to the code
  outside the script, in the login section and in the whole run, and the session state
  is the one it was.
\<close>

theorem login_validation:
  assumes "\<not> authenticated (session p)" and "\<not> tfe" and "e = [] \<or> pw = []"
  shows "login_section ext (SubmitLogin e pw) is_cn tfe p =
           Finished (render [StError ''Please enter both email and password.'']
             (render (LoginForm # (if is_cn then [ChinaRegionInfo] else [])) p))
         \<and> calls (page_of (login_section ext (SubmitLogin e pw) is_cn tfe p)) = calls p
         \<and> session (page_of (login_section ext (SubmitLogin e pw) is_cn tfe p)) = session p
         \<and> calls (page_of (script ext env (SubmitLogin e pw) q)) = calls q"
  using assms by (simp add: login_section_def script_invalid_login Let_def)

theorem login_validation_witness:
  "\<not> authenticated (session login_page)
   \<and> login_section (provider (Inr (PyObj (), None)) None (None, Dir token_files) [])
        (SubmitLogin ''a@b.com'' []) False False login_page
      = Finished (login_page
          \<lparr>shown := [LoginForm, StError ''Please enter both email and password.'']\<rparr>)
   \<and> calls (page_of (script (provider (Inr (PyObj (), None)) None (None, Dir token_files) [])
        Map.empty (SubmitLogin ''a@b.com'' []) first_visit)) = []"
  using login_validation [where p = login_page and tfe = False and e = "''a@b.com''" and pw = "[]"
      and ext = "provider (Inr (PyObj (), None)) None (None, Dir token_files) []"
      and is_cn = False and env = Map.empty and q = first_visit]
  by (simp add: run_defs)

lemma login_attempt_needs_mfa:
  assumes "Garmin ext (email ev) (password ev) is_cn = Inr garmin"
    and "login ext garmin = Inr (PyStr ''needs_mfa'', result2)"
  shows "login_attempt ext ev is_cn p =
           Inr ((called (CallLogin garmin) (called (CallGarmin (email ev) (password ev) is_cn) p))
                  \<lparr>session := (session p)
                     \<lparr>needs_mfa := True, garmin_obj := Some garmin, mfa_data := result2\<rparr>\<rparr>)"
  using assms by (simp add: login_attempt_def Let_def)

lemma login_attempt_dump:
  assumes "Garmin ext (email ev) (password ev) is_cn = Inr garmin"
    and "login ext garmin = Inr (result1, result2)"
    and "result1 \<noteq> PyStr ''needs_mfa''"
  shows "login_attempt ext ev is_cn p =
           (let p3 = called (CallDump garmin) (called (CallLogin garmin)
                       (called (CallGarmin (email ev) (password ev) is_cn) p))
            in case dump ext garmin (token_dir p) of
                 (Some e, d) \<Rightarrow> Inl (e, p3\<lparr>token_dir := d\<rparr>)
               | (None, d) \<Rightarrow>
                   Inr (p3\<lparr>token_dir := d, session := (session p)\<lparr>authenticated := True\<rparr>\<rparr>))"
  using assms by (simp add: login_attempt_def Let_def split: prod.split option.split)

lemma login_attempt_raises:
  assumes "Garmin ext (email ev) (password ev) is_cn = Inl x
           \<or> (\<exists>g. Garmin ext (email ev) (password ev) is_cn = Inr g \<and> login ext g = Inl x)"
  shows "\<exists>cs. login_attempt ext ev is_cn p = Inl (x, p\<lparr>calls := calls p @ cs\<rparr>)"
  using assms by (auto simp add: login_attempt_def called_def Let_def)

lemma login_section_submit:
  assumes "\<not> authenticated (session p)" and "\<not> tfe" and "e \<noteq> []" and "pw \<noteq> []"
  shows "login_section ext (SubmitLogin e pw) is_cn tfe p =
           (case login_attempt ext (SubmitLogin e pw) is_cn
                   (render (LoginForm # (if is_cn then [ChinaRegionInfo] else [])) p) of
              Inl (x, p2) \<Rightarrow> Finished (render [login_error_box x] p2)
            | Inr p2 \<Rightarrow> Rerun p2)"
  using assms by (simp add: login_section_def Let_def)

text \<open>
  C5. When the login call returns the string \<open>needs_mfa\<close> first, the run stops in
  \<open>st.rerun()\<close> with \<open>needs_mfa\<close> true, the client object in \<open>garmin_obj\<close> and the
  second returned value in \<open>mfa_data\<close> (there whenever the call returned one);
  \<open>authenticated\<close> is still false, the token bundle is not written, and the run that
  follows shows the MFA form.
\<close>

theorem login_needs_mfa:
  assumes "\<not> authenticated (session p)" and "\<not> tfe" and "e \<noteq> []" and "pw \<noteq> []"
    and "Garmin ext e pw is_cn = Inr garmin"
    and "login ext garmin = Inr (PyStr ''needs_mfa'', result2)"
  shows "let r = login_section ext (SubmitLogin e pw) is_cn tfe p in
           r = Rerun (page_of r)
           \<and> needs_mfa (session (page_of r))
           \<and> garmin_obj (session (page_of r)) = Some garmin
           \<and> mfa_data (session (page_of r)) = result2
           \<and> (mfa_data (session (page_of r)) = None) = (result2 = None)
           \<and> \<not> authenticated (session (page_of r))
           \<and> calls (page_of r) = calls p @ [CallGarmin e pw is_cn, CallLogin garmin]
           \<and> token_dir (page_of r) = token_dir p
           \<and> mfa_section ext PageLoad (page_of r)
               = Finished (render [MfaRequiredBox, MfaForm] (page_of r))"
  using assms
  by (simp add: login_section_submit login_attempt_needs_mfa mfa_section_display Let_def)

theorem login_needs_mfa_witness:
  "Garmin (provider (Inr (PyStr ''needs_mfa'', Some 5)) None (None, Dir token_files) [])
       ''a@b.com'' ''pw'' False = Inr 1
   \<and> login (provider (Inr (PyStr ''needs_mfa'', Some 5)) None (None, Dir token_files) []) 1
       = Inr (PyStr ''needs_mfa'', Some 5)
   \<and> login_section (provider (Inr (PyStr ''needs_mfa'', Some 5)) None (None, Dir token_files) [])
        (SubmitLogin ''a@b.com'' ''pw'') False False login_page
      = Rerun
          \<lparr>session =
             \<lparr>authenticated = False, needs_mfa = True, garmin_obj = Some 1, mfa_data = Some 5\<rparr>,
           token_dir = Dir [], shown = [LoginForm],
           calls = [CallGarmin ''a@b.com'' ''pw'' False, CallLogin 1]\<rparr>"
  using login_needs_mfa [where p = login_page and tfe = False and e = "''a@b.com''" and pw = "''pw''"
      and ext = "provider (Inr (PyStr ''needs_mfa'', Some 5)) None (None, Dir token_files) []"
      and is_cn = False and garmin = 1 and ?result2.0 = "Some 5"]
  by (simp add: run_defs)

text \<open>
  C6. When the login call returns anything else first, the run calls \<open>dump\<close> on the
  client right after the login call; when \<open>dump\<close> raises nothing, the run stops in
  \<open>st.rerun()\<close> with \<open>authenticated\<close> true and the directory as \<open>dump\<close> left it.
\<close>

theorem login_success_persists:
  assumes "\<not> authenticated (session p)" and "\<not> tfe" and "e \<noteq> []" and "pw \<noteq> []"
    and "Garmin ext e pw is_cn = Inr garmin"
    and "login ext garmin = Inr (result1, result2)"
    and "result1 \<noteq> PyStr ''needs_mfa''"
  shows "let r = login_section ext (SubmitLogin e pw) is_cn tfe p in
           calls (page_of r) = calls p @ [CallGarmin e pw is_cn, CallLogin garmin, CallDump garmin]
           \<and> (fst (dump ext garmin (token_dir p)) = None \<longrightarrow>
                r = Rerun (page_of r)
                \<and> authenticated (session (page_of r))
                \<and> token_dir (page_of r) = snd (dump ext garmin (token_dir p)))"
  using assms
  by (cases "dump ext garmin (token_dir p)")
    (auto simp add: login_section_submit login_attempt_dump Let_def split: option.split)

theorem login_success_persists_witness:
  "login (provider (Inr (PyObj (), None)) None (None, Dir token_files) []) 1 = Inr (PyObj (), None)
   \<and> dump (provider (Inr (PyObj (), None)) None (None, Dir token_files) []) 1 (Dir [])
       = (None, Dir token_files)
   \<and> login_section (provider (Inr (PyObj (), None)) None (None, Dir token_files) [])
        (SubmitLogin ''a@b.com'' ''pw'') False False login_page
      = Rerun
          \<lparr>session =
             \<lparr>authenticated = True, needs_mfa = False, garmin_obj = None, mfa_data = None\<rparr>,
           token_dir = Dir [''oauth1_token.json'', ''oauth2_token.json''], shown = [LoginForm],
           calls = [CallGarmin ''a@b.com'' ''pw'' False, CallLogin 1, CallDump 1]\<rparr>"
  using login_success_persists [where p = login_page and tfe = False and e = "''a@b.com''"
      and pw = "''pw''" and ext = "provider (Inr (PyObj (), None)) None (None, Dir token_files) []"
      and is_cn = False and garmin = 1 and ?result1.0 = "PyObj ()" and ?result2.0 = None]
  by (simp add: run_defs)

lemma login_section_raises:
  assumes "\<not> authenticated (session p)" and "\<not> tfe" and "e \<noteq> []" and "pw \<noteq> []"
    and "Garmin ext e pw is_cn = Inl x
         \<or> (\<exists>g. Garmin ext e pw is_cn = Inr g \<and> login ext g = Inl x)"
  shows "\<exists>cs. login_section ext (SubmitLogin e pw) is_cn tfe p =
           Finished ((render (LoginForm # (if is_cn then [ChinaRegionInfo] else []) @ [login_error_box x]) p)
                       \<lparr>calls := calls p @ cs\<rparr>)"
proof -
  let ?p1 = "render (LoginForm # (if is_cn then [ChinaRegionInfo] else [])) p"
  from assms(5) obtain cs where
    "login_attempt ext (SubmitLogin e pw) is_cn ?p1 = Inl (x, ?p1\<lparr>calls := calls ?p1 @ cs\<rparr>)"
    using login_attempt_raises [of ext "SubmitLogin e pw" is_cn x ?p1] by auto
  with assms(1-4) have
    "login_section ext (SubmitLogin e pw) is_cn tfe p =
       Finished ((render (LoginForm # (if is_cn then [ChinaRegionInfo] else []) @ [login_error_box x]) p)
                   \<lparr>calls := calls p @ cs\<rparr>)"
    by (simp add: login_section_submit render_def)
  then show ?thesis ..
qed

lemma forms_login_raises:
  assumes "Garmin ext e pw is_cn = Inl x
           \<or> (\<exists>g. Garmin ext e pw is_cn = Inr g \<and> login ext g = Inl x)"
  shows "session (page_of (forms ext (SubmitLogin e pw) is_cn tfe p)) = session p"
proof (cases "\<not> authenticated (session p) \<and> \<not> tfe \<and> e \<noteq> [] \<and> pw \<noteq> []")
  case True
  then obtain cs where
    "login_section ext (SubmitLogin e pw) is_cn tfe p =
       Finished ((render (LoginForm # (if is_cn then [ChinaRegionInfo] else []) @ [login_error_box x]) p)
                   \<lparr>calls := calls p @ cs\<rparr>)"
    using login_section_raises [OF _ _ _ _ assms, of p tfe] by auto
  then show ?thesis
    by (simp add: forms_def mfa_section_display)
next
  case False
  then show ?thesis
    by (auto simp add: forms_def login_section_def mfa_section_display Let_def)
qed

lemma script_login_raises:
  assumes "Garmin ext e pw (GARMINCONNECT_IS_CN env) = Inl x
           \<or> (\<exists>g. Garmin ext e pw (GARMINCONNECT_IS_CN env) = Inr g \<and> login ext g = Inl x)"
  shows "init_session_state (session (page_of (script ext env (SubmitLogin e pw) q)))
           = init_session_state (session q)"
  by (cases "token_dir q")
    (simp_all add: script_def token_files_exist_def token_section_display page_of_map_outcome
      forms_login_raises [OF assms] Let_def)

text \<open>
  C10. When the login form is submitted with both fields filled and the constructor or
  the login call raises (any exception), the run shows the error box inside the form and
  goes on with the session state it had: each of the four fields has the value it had
  before, so \<open>authenticated\<close> is false, \<open>needs_mfa\<close> is false when it was, and
  \<open>garmin_obj\<close> and \<open>mfa_data\<close> are \<open>None\<close> when they were. The directory is as
  it was, and over the whole run of the script the four keys read as before.
\<close>

theorem login_exception_keeps_session:
  assumes "\<not> authenticated (session p)" and "\<not> tfe" and "e \<noteq> []" and "pw \<noteq> []"
    and "Garmin ext e pw is_cn = Inl x
         \<or> (\<exists>g. Garmin ext e pw is_cn = Inr g \<and> login ext g = Inl x)"
  shows "let r = login_section ext (SubmitLogin e pw) is_cn tfe p in
           r = Finished (page_of r)
           \<and> session (page_of r) = session p
           \<and> \<not> authenticated (session (page_of r))
           \<and> needs_mfa (session (page_of r)) = needs_mfa (session p)
           \<and> garmin_obj (session (page_of r)) = garmin_obj (session p)
           \<and> mfa_data (session (page_of r)) = mfa_data (session p)
           \<and> token_dir (page_of r) = token_dir p
           \<and> shown (page_of r)
               = shown p @ LoginForm # (if is_cn then [ChinaRegionInfo] else []) @ [login_error_box x]
           \<and> (is_cn = GARMINCONNECT_IS_CN env \<longrightarrow>
                init_session_state (session (page_of (script ext env (SubmitLogin e pw) q)))
                  = init_session_state (session q))"
proof -
  obtain cs where
    "login_section ext (SubmitLogin e pw) is_cn tfe p =
       Finished ((render (LoginForm # (if is_cn then [ChinaRegionInfo] else []) @ [login_error_box x]) p)
                   \<lparr>calls := calls p @ cs\<rparr>)"
    using login_section_raises [OF assms] by auto
  moreover have "is_cn = GARMINCONNECT_IS_CN env \<longrightarrow>
      init_session_state (session (page_of (script ext env (SubmitLogin e pw) q)))
        = init_session_state (session q)"
    using assms(5) script_login_raises [of ext e pw env x q] by auto
  ultimately show ?thesis
    using assms(1) by (simp add: Let_def)
qed

theorem login_exception_keeps_session_witness:
  "login (provider (Inl (GarminConnectAuthenticationError ''bad creds'')) None (None, Dir token_files) []) 1
       = Inl (GarminConnectAuthenticationError ''bad creds'')
   \<and> login_section
        (provider (Inl (GarminConnectAuthenticationError ''bad creds'')) None (None, Dir token_files) [])
        (SubmitLogin ''a@b.com'' ''pw'') False False login_page
      = Finished
          \<lparr>session =
             \<lparr>authenticated = False, needs_mfa = False, garmin_obj = None, mfa_data = None\<rparr>,
           token_dir = Dir [],
           shown = [LoginForm, ErrorBox ''Authentication failed: bad creds''],
           calls = [CallGarmin ''a@b.com'' ''pw'' False, CallLogin 1]\<rparr>
   \<and> init_session_state (session (page_of (script
        (provider (Inl (GarminConnectAuthenticationError ''bad creds'')) None (None, Dir token_files) [])
        Map.empty (SubmitLogin ''a@b.com'' ''pw'') first_visit)))
      = \<lparr>authenticated = False, needs_mfa = False, garmin_obj = None, mfa_data = None\<rparr>"
  using login_exception_keeps_session [where p = login_page and tfe = False and e = "''a@b.com''"
      and pw = "''pw''" and is_cn = False and x = "GarminConnectAuthenticationError ''bad creds''"
      and ext = "provider (Inl (GarminConnectAuthenticationError ''bad creds'')) None
                   (None, Dir token_files) []"
      and env = Map.empty and q = first_visit]
  by (simp add: run_defs)

subsection \<open>The MFA form\<close>

lemma mfa_section_submit:
  assumes "needs_mfa (session p)" and "\<not> authenticated (session p)" and "code \<noteq> []"
  shows "mfa_section ext (SubmitMfa code) p =
           (case mfa_attempt ext (SubmitMfa code) (render [MfaRequiredBox, MfaForm] p) of
              Inl (x, p2) \<Rightarrow> Finished (render [mfa_error_box x] p2)
            | Inr p2 \<Rightarrow> Rerun p2)"
  using assms by (simp add: mfa_section_def Let_def)

lemma mfa_attempt_dump:
  assumes "garmin_obj (session p) = Some garmin"
    and "resume_login ext garmin (mfa_data (session p)) (mfa_code ev) = None"
  shows "mfa_attempt ext ev p =
           (let p2 = called (CallDump garmin)
                       (called (CallResumeLogin garmin (mfa_data (session p)) (mfa_code ev)) p)
            in case dump ext garmin (token_dir p) of
                 (Some e, d) \<Rightarrow> Inl (e, p2\<lparr>token_dir := d\<rparr>)
               | (None, d) \<Rightarrow>
                   Inr (p2\<lparr>token_dir := d,
                           session := (session p)\<lparr>authenticated := True, needs_mfa := False\<rparr>\<rparr>))"
  using assms by (simp add: mfa_attempt_def Let_def split: prod.split option.split)

subsection \<open>Writing the token bundle\<close>



lemma login_dump_returns:
  assumes "\<not> authenticated (session p)" and "\<not> tfe" and "e \<noteq> []" and "pw \<noteq> []"
    and "Garmin ext e pw is_cn = Inr garmin"
    and "login ext garmin = Inr (result1, result2)"
    and "result1 \<noteq> PyStr ''needs_mfa''"
    and "dump ext garmin (token_dir p) = (None, d)"
  shows "login_section ext (SubmitLogin e pw) is_cn tfe p =
           Rerun ((render (LoginForm # (if is_cn then [ChinaRegionInfo] else [])) p)
              \<lparr>calls := calls p @ [CallGarmin e pw is_cn, CallLogin garmin, CallDump garmin],
               token_dir := d,
               session := (session p)\<lparr>authenticated := True\<rparr>\<rparr>)"
  using assms by (simp add: login_section_submit login_attempt_dump render_def called_def Let_def)

lemma mfa_dump_returns:
  assumes "needs_mfa (session p)" and "\<not> authenticated (session p)" and "code \<noteq> []"
    and "garmin_obj (session p) = Some garmin"
    and "resume_login ext garmin (mfa_data (session p)) code = None"
    and "dump ext garmin (token_dir p) = (None, d)"
  shows "mfa_section ext (SubmitMfa code) p =
           Rerun ((render [MfaRequiredBox, MfaForm] p)
              \<lparr>calls := calls p @ [CallResumeLogin garmin (mfa_data (session p)) code, CallDump garmin],
               token_dir := d,
               session := (session p)\<lparr>authenticated := True, needs_mfa := False\<rparr>\<rparr>)"
  using assms by (simp add: mfa_section_submit mfa_attempt_dump render_def called_def Let_def)

subsection \<open>The run after a failed write\<close>
















text \<open>
  A session that logs in with a second factor: the login call answers \<open>needs_mfa\<close>
  with context \<open>5\<close>, the code is accepted and the bundle is written. Afterwards
  \<open>authenticated\<close> is true while \<open>garmin_obj\<close> still holds the client and
  \<open>mfa_data\<close> the context, which is what C1 rules out.
\<close>

theorem mfa_success_keeps_pending_fields:
  "session (page_of
     (interact (provider (Inr (PyStr ''needs_mfa'', Some 5)) None (None, Dir token_files) [])
        Map.empty (SubmitMfa ''123456'')
        (page_of
           (interact (provider (Inr (PyStr ''needs_mfa'', Some 5)) None (None, Dir token_files) [])
              Map.empty (SubmitLogin ''a@b.com'' ''pw'') first_visit))))
   = \<lparr>key_authenticated = Some True, key_needs_mfa = Some False,
      key_garmin_obj = Some (Some 1), key_mfa_data = Some (Some 5)\<rparr>"
  by (simp add: run_defs)

text \<open>
  C1, as the code has it. After \<open>dump\<close> returns, on the login path and on the MFA path,
  \<open>authenticated\<close> is true (and on the MFA path \<open>needs_mfa\<close> is false), while
  \<open>garmin_obj\<close> and \<open>mfa_data\<close> keep the values they had before the submission: no
  statement of the script sets them back to \<open>None\<close>. They are \<open>None\<close> afterwards
  exactly when they were \<open>None\<close> before; on the MFA path \<open>garmin_obj\<close> still holds the client.
\<close>

theorem persistence_keeps_pending_fields:
  "(\<not> authenticated (session p) \<and> \<not> tfe \<and> e \<noteq> [] \<and> pw \<noteq> []
      \<and> Garmin ext e pw is_cn = Inr garmin
      \<and> login ext garmin = Inr (result1, result2)
      \<and> result1 \<noteq> PyStr ''needs_mfa''
      \<and> dump ext garmin (token_dir p) = (None, d)
    \<longrightarrow> (let r = login_section ext (SubmitLogin e pw) is_cn tfe p in
           r = Rerun (page_of r)
           \<and> authenticated (session (page_of r))
           \<and> needs_mfa (session (page_of r)) = needs_mfa (session p)
           \<and> garmin_obj (session (page_of r)) = garmin_obj (session p)
           \<and> mfa_data (session (page_of r)) = mfa_data (session p)))
   \<and> (needs_mfa (session q) \<and> \<not> authenticated (session q) \<and> code \<noteq> []
      \<and> garmin_obj (session q) = Some g
      \<and> resume_login ext g (mfa_data (session q)) code = None
      \<and> dump ext g (token_dir q) = (None, d')
    \<longrightarrow> (let r = mfa_section ext (SubmitMfa code) q in
           r = Rerun (page_of r)
           \<and> authenticated (session (page_of r))
           \<and> \<not> needs_mfa (session (page_of r))
           \<and> garmin_obj (session (page_of r)) = Some g
           \<and> mfa_data (session (page_of r)) = mfa_data (session q)))"
  by (simp add: login_dump_returns mfa_dump_returns Let_def)

theorem persistence_keeps_pending_fields_witness:
  "login_section (provider (Inr (PyObj (), None)) None (None, Dir token_files) [])
        (SubmitLogin ''a@b.com'' ''pw'') False False login_page
      = Rerun
          \<lparr>session =
             \<lparr>authenticated = True, needs_mfa = False, garmin_obj = None, mfa_data = None\<rparr>,
           token_dir = Dir [''oauth1_token.json'', ''oauth2_token.json''], shown = [LoginForm],
           calls = [CallGarmin ''a@b.com'' ''pw'' False, CallLogin 1, CallDump 1]\<rparr>
   \<and> mfa_section (provider (Inr (PyObj (), None)) None (None, Dir token_files) [])
        (SubmitMfa ''123456'') mfa_page
      = Rerun
          \<lparr>session =
             \<lparr>authenticated = True, needs_mfa = False, garmin_obj = Some 1, mfa_data = Some 5\<rparr>,
           token_dir = Dir [''oauth1_token.json'', ''oauth2_token.json''],
           shown = [MfaRequiredBox, MfaForm],
           calls = [CallResumeLogin 1 (Some 5) ''123456'', CallDump 1]\<rparr>"
  using persistence_keeps_pending_fields [where p = login_page and tfe = False and e = "''a@b.com''"
      and pw = "''pw''" and is_cn = False and garmin = 1 and ?result1.0 = "PyObj ()"
      and ?result2.0 = None and d = "Dir token_files"
      and ext = "provider (Inr (PyObj (), None)) None (None, Dir token_files) []"
      and q = mfa_page and code = "''123456''" and g = 1 and d' = "Dir token_files"]
  by (simp add: run_defs)

subsection \<open>Clearing the tokens\<close>

lemma unlink_all_returns:
  "\<forall>f \<in> set fs. unlink ext f = None \<Longrightarrow>
     unlink_all ext fs (p\<lparr>token_dir := Dir (fs @ rest)\<rparr>) =
       (None, p\<lparr>token_dir := Dir rest, calls := calls p @ map CallUnlink fs\<rparr>)"
proof (induction fs arbitrary: p)
  case Nil
  then show ?case by simp
next
  case (Cons f fs)
  have "unlink_file ext f (Dir ((f # fs) @ rest)) = Inr (Dir (fs @ rest))"
    using Cons.prems by (simp add: unlink_file_def)
  moreover have
    "unlink_all ext fs ((called (CallUnlink f) p)\<lparr>token_dir := Dir (fs @ rest)\<rparr>) =
       (None, (called (CallUnlink f) p)
          \<lparr>token_dir := Dir rest, calls := calls (called (CallUnlink f) p) @ map CallUnlink fs\<rparr>)"
    using Cons.prems by (intro Cons.IH) simp
  ultimately show ?case
    by (simp add: called_def)
qed

lemma unlink_all_raises:
  assumes "\<forall>g \<in> set pre. unlink ext g = None" and "unlink ext f = Some x"
  shows "unlink_all ext (pre @ f # post) (p\<lparr>token_dir := Dir (pre @ f # post)\<rparr>) =
           (Some x, p\<lparr>token_dir := Dir (f # post), calls := calls p @ map CallUnlink (pre @ [f])\<rparr>)"
  using assms(1)
proof (induction pre arbitrary: p)
  case Nil
  then show ?case
    using assms(2) by (simp add: unlink_file_def called_def)
next
  case (Cons g pre)
  have "unlink_file ext g (Dir ((g # pre) @ f # post)) = Inr (Dir (pre @ f # post))"
    using Cons.prems by (simp add: unlink_file_def)
  moreover have
    "unlink_all ext (pre @ f # post) ((called (CallUnlink g) p)\<lparr>token_dir := Dir (pre @ f # post)\<rparr>) =
       (Some x, (called (CallUnlink g) p)
          \<lparr>token_dir := Dir (f # post),
           calls := calls (called (CallUnlink g) p) @ map CallUnlink (pre @ [f])\<rparr>)"
    using Cons.prems by (intro Cons.IH) simp
  ultimately show ?case
    by (simp add: called_def)
qed

lemma first_failure:
  "\<exists>f \<in> set es. unlink ext f \<noteq> None \<Longrightarrow>
     \<exists>pre f post x. es = pre @ f # post \<and> (\<forall>g \<in> set pre. unlink ext g = None)
                     \<and> unlink ext f = Some x"
proof -
  assume "\<exists>f \<in> set es. unlink ext f \<noteq> None"
  then obtain pre f post where "es = pre @ f # post" and "unlink ext f \<noteq> None"
    and "\<forall>g \<in> set pre. \<not> unlink ext g \<noteq> None"
    using split_list_first_prop [of es "\<lambda>f. unlink ext f \<noteq> None"] by blast
  then show ?thesis by auto
qed

lemma token_section_click:
  "token_section ext ClickReauth True p = clear_tokens ext (render [TokensFoundBox, ReauthButton] p)"
  by (simp add: token_section_def)

text \<open>
  C9. Clearing goes through the entries of the directory in the order of the listing and
  deletes each one. When no \<open>unlink\<close> raises, every entry has been tried, the directory
  is empty, the token presence check on it is false and the run stops in \<open>st.rerun()\<close>.
  When some \<open>unlink\<close> raises, the first one that does ends the loop: the run shows
  \<open>Error clearing tokens:\<close> with the text of that exception, the entries before the
  failing one are gone and stay gone, the failing one and those after it remain.
\<close>

theorem clear_tokens_result:
  "((\<forall>f \<in> set es. unlink ext f = None) \<longrightarrow>
      (let r = clear_tokens ext (p\<lparr>token_dir := Dir es\<rparr>) in
         r = Rerun (page_of r)
         \<and> token_dir (page_of r) = Dir []
         \<and> token_files_exist (token_dir (page_of r)) = Inr False
         \<and> calls (page_of r) = calls p @ map CallUnlink es))
   \<and> ((\<exists>f \<in> set es. unlink ext f \<noteq> None) \<longrightarrow>
      (\<exists>pre f post x.
         es = pre @ f # post \<and> (\<forall>g \<in> set pre. unlink ext g = None) \<and> unlink ext f = Some x
         \<and> (let r = clear_tokens ext (p\<lparr>token_dir := Dir es\<rparr>) in
              r = Finished (page_of r)
              \<and> token_dir (page_of r) = Dir (f # post)
              \<and> calls (page_of r) = calls p @ map CallUnlink (pre @ [f])
              \<and> shown (page_of r) = shown p @ [StError (''Error clearing tokens: '' @ message x)])))"
proof (intro conjI impI)
  assume "\<forall>f \<in> set es. unlink ext f = None"
  then have "unlink_all ext es (p\<lparr>token_dir := Dir es\<rparr>) =
      (None, p\<lparr>token_dir := Dir [], calls := calls p @ map CallUnlink es\<rparr>)"
    using unlink_all_returns [where fs = es and rest = "[]" and ext = ext and p = p] by simp
  then show "let r = clear_tokens ext (p\<lparr>token_dir := Dir es\<rparr>) in
         r = Rerun (page_of r)
         \<and> token_dir (page_of r) = Dir []
         \<and> token_files_exist (token_dir (page_of r)) = Inr False
         \<and> calls (page_of r) = calls p @ map CallUnlink es"
    by (simp add: clear_tokens_def token_files_exist_def Let_def)
next
  assume "\<exists>f \<in> set es. unlink ext f \<noteq> None"
  then obtain pre f post x where es: "es = pre @ f # post"
    and pre: "\<forall>g \<in> set pre. unlink ext g = None" and f: "unlink ext f = Some x"
    using first_failure [where es = es and ext = ext] by blast
  have "unlink_all ext es (p\<lparr>token_dir := Dir es\<rparr>) =
      (Some x, p\<lparr>token_dir := Dir (f # post), calls := calls p @ map CallUnlink (pre @ [f])\<rparr>)"
    unfolding es using pre f by (rule unlink_all_raises)
  then have "let r = clear_tokens ext (p\<lparr>token_dir := Dir es\<rparr>) in
              r = Finished (page_of r)
              \<and> token_dir (page_of r) = Dir (f # post)
              \<and> calls (page_of r) = calls p @ map CallUnlink (pre @ [f])
              \<and> shown (page_of r) = shown p @ [StError (''Error clearing tokens: '' @ message x)]"
    by (simp add: clear_tokens_def Let_def)
  with es pre f show "\<exists>pre f post x.
         es = pre @ f # post \<and> (\<forall>g \<in> set pre. unlink ext g = None) \<and> unlink ext f = Some x
         \<and> (let r = clear_tokens ext (p\<lparr>token_dir := Dir es\<rparr>) in
              r = Finished (page_of r)
              \<and> token_dir (page_of r) = Dir (f # post)
              \<and> calls (page_of r) = calls p @ map CallUnlink (pre @ [f])
              \<and> shown (page_of r) = shown p @ [StError (''Error clearing tokens: '' @ message x)])"
    by blast
qed

theorem clear_tokens_result_witness:
  "unlink (provider (Inr (PyObj (), None)) None (None, Dir token_files) []) ''oauth1_token.json'' = None
   \<and> unlink (provider (Inr (PyObj (), None)) None (None, Dir token_files) []) ''oauth2_token.json'' = None
   \<and> clear_tokens (provider (Inr (PyObj (), None)) None (None, Dir token_files) []) tokens_page
      = Rerun
          \<lparr>session = new_session, token_dir = Dir [],
           shown = [StSuccess ''Tokens cleared. Please log in again.''],
           calls = [CallUnlink ''oauth1_token.json'', CallUnlink ''oauth2_token.json'']\<rparr>
   \<and> unlink (provider (Inr (PyObj (), None)) None (None, Dir token_files) [''oauth2_token.json''])
        ''oauth2_token.json'' = Some (OtherError ''Permission denied'')
   \<and> clear_tokens (provider (Inr (PyObj (), None)) None (None, Dir token_files) [''oauth2_token.json''])
        tokens_page
      = Finished
          \<lparr>session = new_session, token_dir = Dir [''oauth2_token.json''],
           shown = [StError ''Error clearing tokens: Permission denied''],
           calls = [CallUnlink ''oauth1_token.json'', CallUnlink ''oauth2_token.json'']\<rparr>"
  using clear_tokens_result [where es = token_files and p = tokens_page
      and ext = "provider (Inr (PyObj (), None)) None (None, Dir token_files) []"]
    clear_tokens_result [where es = token_files and p = tokens_page
      and ext = "provider (Inr (PyObj (), None)) None (None, Dir token_files) [''oauth2_token.json'']"]
  by (simp add: run_defs)

subsection \<open>Clearing and logging in again\<close>

text \<open>A run in which the user triggers nothing never ends in \<open>st.rerun()\<close>.\<close>

lemma script_PageLoad_no_rerun: "script ext env PageLoad p \<noteq> Rerun p'"
  by (cases "token_dir p")
    (simp_all add: script_def token_files_exist_def token_section_display forms_PageLoad Let_def)

lemma unlink_all_frame:
  "session (snd (unlink_all ext fs p)) = session p \<and> shown (snd (unlink_all ext fs p)) = shown p"
  by (induction fs arbitrary: p) (simp_all split: sum.split)

lemma clear_tokens_frame:
  "session (page_of (clear_tokens ext p)) = session p
   \<and> LoginForm \<notin> set (shown (page_of (clear_tokens ext p))) - set (shown p)"
proof (cases "iterdir (token_dir p)")
  case (Inl e)
  then show ?thesis by (simp add: clear_tokens_def)
next
  case (Inr fs)
  obtain r p' where r: "unlink_all ext fs p = (r, p')"
    by (cases "unlink_all ext fs p")
  with unlink_all_frame [of ext fs p] have "session p' = session p" and "shown p' = shown p"
    by simp_all
  with Inr r show ?thesis
    by (cases r) (simp_all add: clear_tokens_def)
qed

lemma token_section_frame:
  "session (page_of (token_section ext ev tfe p)) = session p
   \<and> LoginForm \<notin> set (shown (page_of (token_section ext ev tfe p))) - set (shown p)"
  using clear_tokens_frame [of ext "render [TokensFoundBox, ReauthButton] p"]
  by (auto simp add: token_section_def Let_def)

lemma forms_authenticated:
  "authenticated (session p) \<Longrightarrow> forms ext ev is_cn tfe p = Finished (render [SuccessBox] p)"
  by (simp add: forms_def login_section_def mfa_section_def success_section_def)

lemma script_authenticated:
  assumes "authenticated (init_session_state (session p))" and "LoginForm \<notin> set (shown p)"
  shows "LoginForm \<notin> set (shown (page_of (script ext env ev p)))
         \<and> init_session_state (session (page_of (script ext env ev p)))
             = init_session_state (session p)"
proof (cases "mkdir (token_dir p)")
  case (Inl e)
  with assms show ?thesis by (simp add: script_def)
next
  case (Inr d)
  then have "\<exists>tfe. token_files_exist d = Inr tfe"
    by (cases "token_dir p") (auto simp add: token_files_exist_def)
  then obtain tfe where tfe: "token_files_exist d = Inr tfe" ..
  let ?p = "p\<lparr>token_dir := d\<rparr>"
  have frame: "session (page_of (token_section ext ev tfe ?p)) = session p"
    "LoginForm \<notin> set (shown (page_of (token_section ext ev tfe ?p)))"
    using token_section_frame [of ext ev tfe ?p] assms(2) by auto
  show ?thesis
  proof (cases "token_section ext ev tfe ?p")
    case (Finished p1)
    with frame have "session p1 = session p" and "LoginForm \<notin> set (shown p1)" by simp_all
    with Inr tfe Finished assms(1) show ?thesis
      by (simp add: script_def forms_authenticated Let_def)
  next
    case (Rerun p1)
    with frame Inr tfe show ?thesis by (simp add: script_def Let_def)
  next
    case (Crashed e p1)
    with frame Inr tfe show ?thesis by (simp add: script_def Let_def)
  qed
qed

text \<open>
  Once a session has set \<open>authenticated\<close>, nothing the user does brings the login form
  back, whatever the directory holds and whatever the code outside the script answers.
\<close>

lemma authenticated_session_never_shows_login_form:
  assumes "authenticated (init_session_state (session p))"
  shows "LoginForm \<notin> set (shown (page_of (interact ext env ev p)))"
proof (cases "script ext env ev (p\<lparr>shown := []\<rparr>)")
  case (Rerun p1)
  have "init_session_state (session p1) = init_session_state (session p)"
    using script_authenticated [of "p\<lparr>shown := []\<rparr>" ext env ev] assms Rerun by simp
  with assms have "LoginForm \<notin> set (shown (page_of (script ext env PageLoad (p1\<lparr>shown := []\<rparr>))))"
    using script_authenticated [of "p1\<lparr>shown := []\<rparr>" ext env PageLoad] by simp
  with Rerun show ?thesis by (simp add: interact_def)
next
  case (Finished p1)
  then show ?thesis
    using script_authenticated [of "p\<lparr>shown := []\<rparr>" ext env ev] assms by (simp add: interact_def)
next
  case (Crashed e p1)
  then show ?thesis
    using script_authenticated [of "p\<lparr>shown := []\<rparr>" ext env ev] assms by (simp add: interact_def)
qed

text \<open>
  C2. A session logs in without a second factor (which sets \<open>authenticated\<close> and writes
  the two token files) and then clicks the button that clears the tokens; both files are
  deleted. The run after the clearing finds the directory empty but \<open>authenticated\<close>
  still true, so line 120 keeps the login form away and line 197 shows the success
  message: the page has no login form.
\<close>

theorem reauth_after_login_hides_login_form:
  "interact (provider (Inr (PyObj (), None)) None (None, Dir token_files) []) Map.empty ClickReauth
     (page_of
        (interact (provider (Inr (PyObj (), None)) None (None, Dir token_files) [])
           Map.empty (SubmitLogin ''a@b.com'' ''pw'') first_visit))
   = Finished
       \<lparr>session =
          \<lparr>key_authenticated = Some True, key_needs_mfa = Some False,
           key_garmin_obj = Some None, key_mfa_data = Some None\<rparr>,
        token_dir = Dir [],
        shown = [PleaseLogInBox, SuccessBox],
        calls = [CallGarmin ''a@b.com'' ''pw'' False, CallLogin 1, CallDump 1,
                 CallUnlink ''oauth1_token.json'', CallUnlink ''oauth2_token.json'']\<rparr>"
  by (simp add: run_defs)

text \<open>
  The same click in a session that found the tokens on disk and never set
  \<open>authenticated\<close> brings the login form back.
\<close>

lemma reauth_in_new_session_shows_login_form:
  "interact (provider (Inr (PyObj (), None)) None (None, Dir token_files) []) Map.empty ClickReauth
     tokens_page
   = Finished
       \<lparr>session =
          \<lparr>key_authenticated = Some False, key_needs_mfa = Some False,
           key_garmin_obj = Some None, key_mfa_data = Some None\<rparr>,
        token_dir = Dir [],
        shown = [PleaseLogInBox, LoginForm],
        calls = [CallUnlink ''oauth1_token.json'', CallUnlink ''oauth2_token.json'']\<rparr>"
  by (simp add: run_defs)

text \<open>
  The scenario of a login with a second factor, page by page: the login form, then the
  MFA form (the login form is still there), then the notice that tokens were found.
\<close>

lemma login_with_mfa_scenario:
  "shown (page_of (interact (provider (Inr (PyStr ''needs_mfa'', Some 5)) None (None, Dir token_files) [])
        Map.empty PageLoad first_visit)) = [PleaseLogInBox, LoginForm]
   \<and> shown (page_of (interact (provider (Inr (PyStr ''needs_mfa'', Some 5)) None (None, Dir token_files) [])
        Map.empty (SubmitLogin ''a@b.com'' ''pw'') first_visit))
       = [PleaseLogInBox, LoginForm, MfaRequiredBox, MfaForm]
   \<and> shown (page_of
     (interact (provider (Inr (PyStr ''needs_mfa'', Some 5)) None (None, Dir token_files) [])
        Map.empty (SubmitMfa ''123456'')
        (page_of
           (interact (provider (Inr (PyStr ''needs_mfa'', Some 5)) None (None, Dir token_files) [])
              Map.empty (SubmitLogin ''a@b.com'' ''pw'') first_visit))))
       = [TokensFoundBox, ReauthButton, SuccessBox]"
  by (simp add: run_defs)

end
